theory Spec2Isabelle
  imports Main "HOL-Library.Multiset"
begin

section \<open>The task list manager of node.js\<close>

text \<open>
  The program is one JavaScript file: a class \<open>Task\<close> and a class \<open>TaskManager\<close> that
  keeps an array of tasks, a filter name and a copy of the array in \<open>localStorage\<close>.

  Conventions of the embedding.
  \<^item> A \<open>Date\<close> is its time value, the milliseconds since the epoch, an \<open>int\<close>; \<open>null\<close> in
    a field that holds a \<open>Date\<close> or \<open>null\<close> is \<open>None\<close>. Numbers are integers and
    arithmetic on them is exact.
  \<^item> A JavaScript string is a \<open>string\<close>, one \<open>char\<close> for each code unit; the strings
    of the model have code units below 256 only.
  \<^item> What the program reads from its environment (the clock, \<open>Math.random\<close>, the text
    of the input box) is an argument of the operation that reads it.
  \<^item> The page elements the program writes are not part of the state: \<open>renderTasks\<close> and
    \<open>updateFastestTaskInfo\<close> are functions that return what is shown.
\<close>

subsection \<open>Numbers and strings of the platform\<close>

definition digit :: "nat \<Rightarrow> char" where
  "digit d = ''0123456789abcdefghijklmnopqrstuvwxyz'' ! d"

text \<open>The digits of a natural number in a radix from 2 to 36, most significant first.\<close>

function digits :: "nat \<Rightarrow> nat \<Rightarrow> string" where
  "digits radix n =
     (if radix < 2 \<or> n < radix then [digit n]
      else digits radix (n div radix) @ [digit (n mod radix)])"
  by pat_completeness auto
termination
  by (relation "measure (\<lambda>(radix, n). n)") auto

declare digits.simps [simp del]

text \<open>\<open>Number.prototype.toString(radix)\<close> on an integer.\<close>

definition toString :: "nat \<Rightarrow> int \<Rightarrow> string" where
  "toString radix k =
     (if k < 0 then CHR ''-'' # digits radix (nat (- k)) else digits radix (nat k))"

text \<open>
  The remainder operator \<open>%\<close> on integers with a divisor other than zero: the result has
  the sign of the dividend.
\<close>

definition js_rem :: "int \<Rightarrow> int \<Rightarrow> int" where
  "js_rem a b = sgn a * (\<bar>a\<bar> mod \<bar>b\<bar>)"

text \<open>\<open>Array.prototype.join\<close> on an array of strings.\<close>

fun join :: "string \<Rightarrow> string list \<Rightarrow> string" where
  "join sep [] = []"
| "join sep [x] = x"
| "join sep (x # y # ys) = x @ sep @ join sep (y # ys)"

text \<open>
  \<open>String.prototype.trim\<close>: white space and line terminators are removed at both ends.
  Of the code units below 256 these are tab, line feed, vertical tab, form feed, carriage
  return, space and the no-break space.
\<close>

definition is_space :: "char \<Rightarrow> bool" where
  "is_space c = (c \<in> set [CHR 0x09, CHR 0x0A, CHR 0x0B, CHR 0x0C, CHR 0x0D, CHR 0x20, CHR 0xA0])"

definition trim :: "string \<Rightarrow> string" where
  "trim s = rev (dropWhile is_space (rev (dropWhile is_space s)))"

subsection \<open>formatDuration\<close>

text \<open>
  The argument is a number or \<open>null\<close> (what \<open>getCompletionTime\<close> returns); \<open>!ms\<close> holds
  for \<open>null\<close> and for zero. \<open>Math.floor(ms / d)\<close> is \<open>ms div d\<close>.
\<close>

definition formatDuration :: "int option \<Rightarrow> string" where
  "formatDuration ms_arg =
     (case ms_arg of
        None \<Rightarrow> []
      | Some ms \<Rightarrow>
          if ms = 0 then []
          else
            let seconds = js_rem (ms div 1000) 60;
                minutes = js_rem (ms div (1000 * 60)) 60;
                hours = js_rem (ms div (1000 * 60 * 60)) 24;
                days = ms div (1000 * 60 * 60 * 24);
                parts = [];
                parts = (if days > 0 then parts @ [toString 10 days @ ''d''] else parts);
                parts = (if hours > 0 then parts @ [toString 10 hours @ ''h''] else parts);
                parts = (if minutes > 0 then parts @ [toString 10 minutes @ ''m''] else parts);
                parts = (if seconds > 0 then parts @ [toString 10 seconds @ ''s''] else parts)
            in join '' '' parts)"

text \<open>
  The formatter as the specification words it: the duration is decomposed into days,
  hours, minutes and seconds, each component modulo its parent unit and the days uncapped;
  the units whose value is zero are omitted; the others are joined by single spaces, the
  largest first.
\<close>

definition duration_components :: "nat \<Rightarrow> (nat \<times> string) list" where
  "duration_components ms =
     [(ms div 86400000, ''d''),
      (ms div 3600000 mod 24, ''h''),
      (ms div 60000 mod 60, ''m''),
      (ms div 1000 mod 60, ''s'')]"

definition spec_formatDuration :: "nat \<Rightarrow> string" where
  "spec_formatDuration ms =
     join '' '' (map (\<lambda>(v, u). digits 10 v @ u)
                     (filter (\<lambda>(v, u). v \<noteq> 0) (duration_components ms)))"

subsection \<open>Task\<close>

record task =
  task_id :: string
  task_text :: string
  completed :: bool
  createdAt :: int
  completedAt :: "int option"

text \<open>
  The constructor. Its default arguments are supplied by the caller. The id is built from
  two readings of the environment: \<open>now\<close> is \<open>Date.now()\<close> and \<open>random36\<close> is
  \<open>Math.random().toString(36)\<close>, a string such as \<open>0.i\<close>, whose first two code units
  \<open>substr(2)\<close> removes.
\<close>

definition Task :: "string \<Rightarrow> bool \<Rightarrow> int \<Rightarrow> int option \<Rightarrow> int \<Rightarrow> string \<Rightarrow> task" where
  "Task text completed_arg createdAt_arg completedAt_arg now random36 =
     \<lparr>task_id = toString 36 now @ drop 2 random36,
      task_text = text,
      completed = completed_arg,
      createdAt = createdAt_arg,
      completedAt = completedAt_arg\<rparr>"

definition getCompletionTime :: "task \<Rightarrow> int option" where
  "getCompletionTime t =
     (if \<not> completed t \<or> completedAt t = None then None
      else Some (the (completedAt t) - createdAt t))"

subsection \<open>The stored snapshot\<close>

text \<open>
  \<open>JSON.stringify\<close> writes each task as an object with the five fields of the class,
  the two dates as ISO strings (\<open>Date.prototype.toJSON\<close>) or \<open>null\<close>. \<open>JSON.parse\<close> gives
  such an object back, and \<open>new Date\<close> on the ISO string of a date gives the same time
  value: a date string in a parsed object is modelled by that time value. Such a string
  is never empty, so it is truthy.
\<close>

record saved_task =
  saved_id :: string
  saved_text :: string
  saved_completed :: bool
  saved_createdAt :: int
  saved_completedAt :: "int option"

datatype entry =
  NullEntry
  | Entry saved_task

text \<open>
  The item \<open>tasks\<close> of \<open>localStorage\<close>, by what \<open>getItem\<close> and \<open>JSON.parse\<close> make of it:
  \<^item> \<open>Missing\<close>: \<open>getItem\<close> returns \<open>null\<close> (no such item) or the empty string, both falsy;
  \<^item> \<open>Garbled\<close>: a text that is not JSON, on which \<open>JSON.parse\<close> throws a SyntaxError;
  \<^item> \<open>NonArray\<close>: a JSON text whose value has no method \<open>map\<close> (\<open>null\<close>, a number, a
    boolean, a string, an object that is not an array);
  \<^item> \<open>Snapshot\<close>: a JSON text whose value is an array; an element is \<open>null\<close> or an
    object with the fields of a task, as \<open>saveTasks\<close> writes it. Arrays with other
    elements are not in the model.
\<close>

datatype stored =
  Missing
  | Garbled
  | NonArray
  | Snapshot "entry list"

datatype js_error = SyntaxError | TypeError

subsection \<open>TaskManager\<close>

record app_state =
  tasks :: "task list"
  currentFilter :: string
  localStorage :: stored

definition toJSON :: "task \<Rightarrow> entry" where
  "toJSON t =
     Entry \<lparr>saved_id = task_id t,
            saved_text = task_text t,
            saved_completed = completed t,
            saved_createdAt = createdAt t,
            saved_completedAt = completedAt t\<rparr>"

definition saveTasks :: "app_state \<Rightarrow> app_state" where
  "saveTasks s = s\<lparr>localStorage := Snapshot (map toJSON (tasks s))\<rparr>"

text \<open>
  \<open>addTask\<close>: \<open>input_value\<close> is the text of the input box, \<open>clock\<close> the time value of the
  \<open>new Date()\<close> that the constructor takes as default for \<open>createdAt\<close>. Emptying the
  input box afterwards is a write to the page.
\<close>

definition addTask :: "string \<Rightarrow> int \<Rightarrow> int \<Rightarrow> string \<Rightarrow> app_state \<Rightarrow> app_state" where
  "addTask input_value clock now random36 s =
     (let text = trim input_value in
      if text = [] then s
      else
        let newTask = Task text False clock None now random36
        in saveTasks (s\<lparr>tasks := tasks s @ [newTask]\<rparr>))"

text \<open>
  \<open>toggleTaskCompletion\<close> changes the object that \<open>find\<close> returns, the first task of the
  array with the id; \<open>clock\<close> is the time value of \<open>new Date()\<close>.
\<close>

definition toggle :: "int \<Rightarrow> task \<Rightarrow> task" where
  "toggle clock t =
     (let c = \<not> completed t
      in t\<lparr>completed := c, completedAt := (if c then Some clock else None)\<rparr>)"

fun update_first :: "('a \<Rightarrow> bool) \<Rightarrow> ('a \<Rightarrow> 'a) \<Rightarrow> 'a list \<Rightarrow> 'a list" where
  "update_first P f [] = []"
| "update_first P f (x # xs) = (if P x then f x # xs else x # update_first P f xs)"

definition toggleTaskCompletion :: "string \<Rightarrow> int \<Rightarrow> app_state \<Rightarrow> app_state" where
  "toggleTaskCompletion taskId clock s =
     (case find (\<lambda>t. task_id t = taskId) (tasks s) of
        None \<Rightarrow> s
      | Some found \<Rightarrow>
          saveTasks
            (s\<lparr>tasks := update_first (\<lambda>t. task_id t = taskId) (toggle clock) (tasks s)\<rparr>))"

definition deleteTask :: "string \<Rightarrow> app_state \<Rightarrow> app_state" where
  "deleteTask taskId s = saveTasks (s\<lparr>tasks := filter (\<lambda>t. task_id t \<noteq> taskId) (tasks s)\<rparr>)"

definition clearCompletedTasks :: "app_state \<Rightarrow> app_state" where
  "clearCompletedTasks s = saveTasks (s\<lparr>tasks := filter (\<lambda>t. \<not> completed t) (tasks s)\<rparr>)"

definition filterTasks :: "string \<Rightarrow> app_state \<Rightarrow> app_state" where
  "filterTasks f s = s\<lparr>currentFilter := f\<rparr>"

text \<open>
  \<open>Array.prototype.sort\<close> with a comparison function is stable: an insertion sort in
  which an element stays before the elements after it unless the comparison is positive.
\<close>

fun insert_by :: "('a \<Rightarrow> 'a \<Rightarrow> int) \<Rightarrow> 'a \<Rightarrow> 'a list \<Rightarrow> 'a list" where
  "insert_by cmp x [] = [x]"
| "insert_by cmp x (y # ys) = (if cmp x y \<le> 0 then x # y # ys else y # insert_by cmp x ys)"

definition sort_by :: "('a \<Rightarrow> 'a \<Rightarrow> int) \<Rightarrow> 'a list \<Rightarrow> 'a list" where
  "sort_by cmp xs = foldr (insert_by cmp) xs []"

text \<open>\<open>renderTasks\<close>: the tasks for which a list item is made, in the order of the items.\<close>

definition renderTasks :: "app_state \<Rightarrow> task list" where
  "renderTasks s =
     (let tasksToShow =
            (if currentFilter s = ''completed'' then filter (\<lambda>t. completed t) (tasks s)
             else if currentFilter s = ''pending'' then filter (\<lambda>t. \<not> completed t) (tasks s)
             else tasks s)
      in sort_by (\<lambda>a b. createdAt b - createdAt a) tasksToShow)"

text \<open>
  \<open>updateFastestTaskInfo\<close>. The comparison \<open><\<close> takes \<open>null\<close> as zero. \<open>reduce\<close> without
  an initial value starts from the first element; it is called on a non-empty array only.
  \<open>fastestTask\<close> is the constant of that name, \<open>None\<close> when the function returns before it.
\<close>

definition less_number :: "int option \<Rightarrow> int option \<Rightarrow> bool" where
  "less_number a b = (case_option 0 (\<lambda>k. k) a < case_option 0 (\<lambda>k. k) b)"

definition completedTasks :: "task list \<Rightarrow> task list" where
  "completedTasks ts = filter (\<lambda>t. completed t \<and> getCompletionTime t \<noteq> None) ts"

definition fastestTask :: "task list \<Rightarrow> task option" where
  "fastestTask ts =
     (case completedTasks ts of
        [] \<Rightarrow> None
      | first # rest \<Rightarrow>
          Some (foldl (\<lambda>prev current.
                         if less_number (getCompletionTime prev) (getCompletionTime current)
                         then prev else current)
                      first rest))"

definition updateFastestTaskInfo :: "task list \<Rightarrow> string" where
  "updateFastestTaskInfo ts =
     (case fastestTask ts of
        None \<Rightarrow> ''No hay tareas completadas a'' @ [CHR 0xFA] @ ''n.''
      | Some t \<Rightarrow>
          ''Tarea m'' @ [CHR 0xE1] @ ''s r'' @ [CHR 0xE1] @ ''pida completada: '' @ [CHR 0x22]
            @ task_text t @ [CHR 0x22] @ '' en '' @ formatDuration (getCompletionTime t))"

text \<open>
  \<open>loadTasks\<close>. The callback of \<open>map\<close> reads the fields of each element, which throws a
  TypeError on \<open>null\<close>, and calls the constructor, which makes a new id from the readings
  \<open>draw i\<close> of the clock and of \<open>Math.random\<close> at the element of index \<open>i\<close>. The saved id
  is not read. Nothing is caught.
\<close>

fun revive :: "(nat \<Rightarrow> int \<times> string) \<Rightarrow> nat \<Rightarrow> entry list \<Rightarrow> js_error + task list" where
  "revive draw i [] = Inr []"
| "revive draw i (NullEntry # es) = Inl TypeError"
| "revive draw i (Entry e # es) =
     (let t = Task (saved_text e) (saved_completed e) (saved_createdAt e)
                   (case saved_completedAt e of None \<Rightarrow> None | Some c \<Rightarrow> Some c)
                   (fst (draw i)) (snd (draw i))
      in case revive draw (Suc i) es of
           Inl err \<Rightarrow> Inl err
         | Inr ts \<Rightarrow> Inr (t # ts))"

definition loadTasks :: "(nat \<Rightarrow> int \<times> string) \<Rightarrow> app_state \<Rightarrow> js_error + app_state" where
  "loadTasks draw s =
     (case localStorage s of
        Missing \<Rightarrow> Inr s
      | Garbled \<Rightarrow> Inl SyntaxError
      | NonArray \<Rightarrow> Inl TypeError
      | Snapshot parsedTasks \<Rightarrow>
          (case revive draw 0 parsedTasks of
             Inl err \<Rightarrow> Inl err
           | Inr ts \<Rightarrow> Inr (s\<lparr>tasks := ts\<rparr>)))"

text \<open>
  The constructor of \<open>TaskManager\<close> on a page whose storage holds \<open>item\<close>: an empty
  array, the filter \<open>all\<close>, then \<open>loadTasks\<close>.
\<close>

definition TaskManager :: "stored \<Rightarrow> (nat \<Rightarrow> int \<times> string) \<Rightarrow> js_error + app_state" where
  "TaskManager item draw = loadTasks draw \<lparr>tasks = [], currentFilter = ''all'', localStorage = item\<rparr>"

subsection \<open>Runs of the program\<close>

text \<open>
  What a user or the page can make the program do, each with the readings of the
  environment it takes. \<open>Reload\<close> is a new page load: the constructor runs on the storage
  as it is.
\<close>

datatype action =
  AddTask string int int string
  | ToggleTask string int
  | DeleteTask string
  | ClearCompleted
  | SetFilter string
  | Save
  | Load "nat \<Rightarrow> int \<times> string"
  | Reload "nat \<Rightarrow> int \<times> string"

fun perform :: "action \<Rightarrow> app_state \<Rightarrow> js_error + app_state" where
  "perform (AddTask input_value clock now random36) s = Inr (addTask input_value clock now random36 s)"
| "perform (ToggleTask taskId clock) s = Inr (toggleTaskCompletion taskId clock s)"
| "perform (DeleteTask taskId) s = Inr (deleteTask taskId s)"
| "perform ClearCompleted s = Inr (clearCompletedTasks s)"
| "perform (SetFilter f) s = Inr (filterTasks f s)"
| "perform Save s = Inr (saveTasks s)"
| "perform (Load draw) s = loadTasks draw s"
| "perform (Reload draw) s = TaskManager (localStorage s) draw"

fun run :: "action list \<Rightarrow> app_state \<Rightarrow> js_error + app_state" where
  "run [] s = Inr s"
| "run (a # as) s = (case perform a s of Inl err \<Rightarrow> Inl err | Inr s' \<Rightarrow> run as s')"

definition empty_store :: app_state where
  "empty_store = \<lparr>tasks = [], currentFilter = ''all'', localStorage = Missing\<rparr>"

subsection \<open>Predicates on states and runs\<close>

text \<open>A task is consistent when it has a completion date exactly when it is completed.\<close>

definition consistent :: "task \<Rightarrow> bool" where
  "consistent t = ((completedAt t \<noteq> None) = completed t)"

definition stored_consistent :: "stored \<Rightarrow> bool" where
  "stored_consistent item =
     (case item of
        Missing \<Rightarrow> True
      | Garbled \<Rightarrow> False
      | NonArray \<Rightarrow> False
      | Snapshot es \<Rightarrow>
          list_all (\<lambda>e. case e of
                          NullEntry \<Rightarrow> False
                        | Entry r \<Rightarrow> (saved_completedAt r \<noteq> None) = saved_completed r) es)"

definition invariant :: "app_state \<Rightarrow> bool" where
  "invariant s = (list_all consistent (tasks s) \<and> stored_consistent (localStorage s))"

text \<open>
  An action collides when a constructor call of it makes an id that a task of the
  collection has, or that another constructor call of the same load makes: the clock and
  \<open>Math.random\<close> gave the same readings twice, or readings with the same concatenation.
\<close>

fun no_collision :: "action \<Rightarrow> app_state \<Rightarrow> bool" where
  "no_collision (AddTask input_value clock now random36) s =
     (trim input_value = [] \<or> toString 36 now @ drop 2 random36 \<notin> set (map task_id (tasks s)))"
| "no_collision (Load draw) s =
     (case localStorage s of
        Snapshot es \<Rightarrow>
          distinct (map (\<lambda>j. toString 36 (fst (draw j)) @ drop 2 (snd (draw j))) [0..<length es])
      | _ \<Rightarrow> True)"
| "no_collision (Reload draw) s =
     (case localStorage s of
        Snapshot es \<Rightarrow>
          distinct (map (\<lambda>j. toString 36 (fst (draw j)) @ drop 2 (snd (draw j))) [0..<length es])
      | _ \<Rightarrow> True)"
| "no_collision a s = True"

fun collision_free :: "action list \<Rightarrow> app_state \<Rightarrow> bool" where
  "collision_free [] s = True"
| "collision_free (a # as) s =
     (no_collision a s
      \<and> (case perform a s of Inl err \<Rightarrow> True | Inr s' \<Rightarrow> collision_free as s'))"

subsection \<open>Example data\<close>

text \<open>
  A short session: a task is added, completed five seconds later, and a second task is
  added after a minute.
\<close>

definition milk :: task where
  "milk = \<lparr>task_id = ''loyw3v284fzyo82mvyr'', task_text = ''buy milk'', completed = True,
           createdAt = 1700000000000, completedAt = Some 1700000005000\<rparr>"

definition dog :: task where
  "dog = \<lparr>task_id = ''loyw55cwi'', task_text = ''walk dog'', completed = False,
          createdAt = 1700000060000, completedAt = None\<rparr>"

definition session :: "action list" where
  "session =
     [AddTask ''  buy milk '' 1700000000000 1700000000000 ''0.4fzyo82mvyr'',
      ToggleTask ''loyw3v284fzyo82mvyr'' 1700000005000,
      AddTask ''walk dog'' 1700000060000 1700000060000 ''0.i'']"

definition session_store :: app_state where
  "session_store =
     \<lparr>tasks = [milk, dog], currentFilter = ''all'',
      localStorage = Snapshot [toJSON milk, toJSON dog]\<rparr>"

text \<open>The readings of a later page load: the clock has moved on.\<close>

definition later_draw :: "nat \<Rightarrow> int \<times> string" where
  "later_draw j = (1700000100000 + int j, ''0.i'')"

text \<open>A completed task that took the given number of seconds.\<close>

definition timed :: "string \<Rightarrow> int \<Rightarrow> task" where
  "timed name seconds =
     \<lparr>task_id = name, task_text = name, completed = True,
      createdAt = 1700000000000, completedAt = Some (1700000000000 + 1000 * seconds)\<rparr>"

section \<open>Properties\<close>

subsection \<open>Numbers\<close>

lemma js_rem_nonneg: "0 \<le> a \<Longrightarrow> 0 < b \<Longrightarrow> js_rem a b = a mod b"
  by (cases "a = 0") (simp_all add: js_rem_def)

lemma toString_nonneg: "0 \<le> k \<Longrightarrow> toString radix k = digits radix (nat k)"
  by (simp add: toString_def)

subsection \<open>The duration formatter\<close>

text \<open>Both formatters, on a natural number, as the list of the parts that are kept.\<close>

lemma formatDuration_parts:
  "formatDuration (Some (int n)) =
     (if n = 0 then []
      else join '' ''
             ((if 0 < n div 86400000 then [digits 10 (n div 86400000) @ ''d''] else []) @
              (if 0 < n div 3600000 mod 24 then [digits 10 (n div 3600000 mod 24) @ ''h''] else []) @
              (if 0 < n div 60000 mod 60 then [digits 10 (n div 60000 mod 60) @ ''m''] else []) @
              (if 0 < n div 1000 mod 60 then [digits 10 (n div 1000 mod 60) @ ''s''] else [])))"
proof -
  have d: "int n div (1000 * 60 * 60 * 24) = int (n div 86400000)"
    by (simp add: zdiv_int)
  have h: "js_rem (int n div (1000 * 60 * 60)) 24 = int (n div 3600000 mod 24)"
    by (simp add: js_rem_nonneg zdiv_int zmod_int)
  have m: "js_rem (int n div (1000 * 60)) 60 = int (n div 60000 mod 60)"
    by (simp add: js_rem_nonneg zdiv_int zmod_int)
  have s: "js_rem (int n div 1000) 60 = int (n div 1000 mod 60)"
    by (simp add: js_rem_nonneg zdiv_int zmod_int)
  show ?thesis
    unfolding formatDuration_def option.case Let_def d h m s
    by (simp only: toString_nonneg of_nat_0_le_iff nat_int of_nat_0_less_iff of_nat_eq_0_iff
          append_Nil if_distrib [of "\<lambda>xs. xs @ _"] cong: if_cong)
       simp
qed

lemma spec_formatDuration_parts:
  "spec_formatDuration n =
     join '' ''
       ((if 0 < n div 86400000 then [digits 10 (n div 86400000) @ ''d''] else []) @
        (if 0 < n div 3600000 mod 24 then [digits 10 (n div 3600000 mod 24) @ ''h''] else []) @
        (if 0 < n div 60000 mod 60 then [digits 10 (n div 60000 mod 60) @ ''m''] else []) @
        (if 0 < n div 1000 mod 60 then [digits 10 (n div 1000 mod 60) @ ''s''] else []))"
  unfolding spec_formatDuration_def duration_components_def
  by simp

lemma spec_formatDuration_zero: "spec_formatDuration 0 = []"
  by (simp add: spec_formatDuration_def duration_components_def)

text \<open>
  Claim C5. On every duration that is not negative, \<open>formatDuration\<close> is the formatter of
  the specification: days, hours, minutes and seconds, each but the days modulo its parent
  unit, the units that are zero left out, the rest joined by single spaces with the
  largest first. It gives \<open>1d 1h 1m 1s\<close> on 90061000, and the empty string on zero and on
  a missing argument.
\<close>

theorem formatDuration_decomposition:
  "(0 \<le> ms \<longrightarrow> formatDuration (Some ms) = spec_formatDuration (nat ms))
   \<and> formatDuration (Some 90061000) = ''1d 1h 1m 1s''
   \<and> formatDuration (Some 0) = []
   \<and> formatDuration None = []"
proof -
  have general: "formatDuration (Some ms) = spec_formatDuration (nat ms)" if "0 \<le> ms"
  proof -
    from that have ms: "ms = int (nat ms)"
      by simp
    have "formatDuration (Some (int (nat ms))) = spec_formatDuration (nat ms)"
    proof (cases "nat ms = 0")
      case True
      then show ?thesis
        by (simp add: formatDuration_def spec_formatDuration_zero)
    next
      case False
      then show ?thesis
        by (simp only: formatDuration_parts spec_formatDuration_parts if_False)
    qed
    with ms show ?thesis
      by simp
  qed
  have example: "formatDuration (Some 90061000) = ''1d 1h 1m 1s''"
    by (simp add: formatDuration_def js_rem_def toString_def digits.simps digit_def)
  have zero: "formatDuration (Some 0) = []" "formatDuration None = []"
    by (simp_all add: formatDuration_def)
  from general example zero show ?thesis
    by blast
qed

theorem formatDuration_decomposition_witness:
  "(0::int) \<le> 183900000 \<and> formatDuration (Some 183900000) = ''2d 3h 5m''"
proof -
  have "spec_formatDuration (nat 183900000) = ''2d 3h 5m''"
    by (simp add: spec_formatDuration_def duration_components_def digits.simps digit_def)
  with formatDuration_decomposition [of 183900000] show ?thesis
    by simp
qed

text \<open>
  Claim C10. A duration above zero and below one second is formatted as the empty string,
  so the formatted completion time of a task that was completed less than a second after
  its creation is empty.
\<close>

theorem formatDuration_below_one_second:
  "(0 < ms \<and> ms < 1000 \<longrightarrow> formatDuration (Some ms) = [])
   \<and> (completed t \<and> completedAt t = Some finished
        \<and> createdAt t < finished \<and> finished < createdAt t + 1000 \<longrightarrow>
        formatDuration (getCompletionTime t) = [])"
  by (simp add: formatDuration_def js_rem_def Let_def getCompletionTime_def)

theorem formatDuration_below_one_second_witness:
  "(0::int) < 999 \<and> (999::int) < 1000 \<and> formatDuration (Some 999) = []
   \<and> completed (timed ''quick'' 0\<lparr>completedAt := Some 1700000000400\<rparr>)
   \<and> formatDuration (getCompletionTime (timed ''quick'' 0\<lparr>completedAt := Some 1700000000400\<rparr>)) = []"
  using formatDuration_below_one_second
          [of 999 "timed ''quick'' 0\<lparr>completedAt := Some 1700000000400\<rparr>" 1700000000400]
  by (simp add: timed_def)

subsection \<open>The visible tasks\<close>

text \<open>
  With the comparison function of \<open>renderTasks\<close>, \<open>sort_by\<close> is the stable insertion sort
  of the library on the negated creation time.
\<close>

lemma insert_by_insort_key:
  fixes f :: "'a \<Rightarrow> int"
  shows "insert_by (\<lambda>a b. f b - f a) x ys = insort_key (\<lambda>t. - f t) x ys"
  by (induction ys) auto

lemma sort_by_sort_key:
  fixes f :: "'a \<Rightarrow> int"
  shows "sort_by (\<lambda>a b. f b - f a) xs = sort_key (\<lambda>t. - f t) xs"
  by (induction xs) (simp_all add: sort_by_def sort_key_def insert_by_insort_key)

lemma mset_sort_by:
  fixes f :: "'a \<Rightarrow> int"
  shows "mset (sort_by (\<lambda>a b. f b - f a) xs) = mset xs"
  by (simp add: sort_by_sort_key)

lemma sorted_sort_by:
  fixes f :: "'a \<Rightarrow> int"
  shows "sorted_wrt (\<lambda>a b. f b \<le> f a) (sort_by (\<lambda>a b. f b - f a) xs)"
proof -
  have "sorted (map (\<lambda>t. - f t) (sort_key (\<lambda>t. - f t) xs))"
    by (rule sorted_sort_key)
  then show ?thesis
    by (simp add: sort_by_sort_key sorted_map)
qed

lemma stable_sort_by:
  fixes f :: "'a \<Rightarrow> int"
  shows "filter (\<lambda>t. f t = k) (sort_by (\<lambda>a b. f b - f a) xs) = filter (\<lambda>t. f t = k) xs"
proof -
  have "filter (\<lambda>t. - f t = - k) (sort_key (\<lambda>t. - f t) xs) = filter (\<lambda>t. - f t = - k) xs"
    by (rule sort_key_stable)
  then show ?thesis
    by (simp add: sort_by_sort_key)
qed

text \<open>
  Claim C3. The visible tasks are exactly the tasks that match the filter, each as often
  as it is in the collection: the completed ones under \<open>completed\<close>, the others under
  \<open>pending\<close>, all of them under \<open>all\<close> (and under any other filter name). They are in
  descending order of creation time, and the visible tasks with the same creation time
  are in the order they have in the collection.
\<close>

theorem renderTasks_visible:
  "(currentFilter s = ''completed'' \<longrightarrow>
      mset (renderTasks s) = mset (filter (\<lambda>t. completed t) (tasks s)))
   \<and> (currentFilter s = ''pending'' \<longrightarrow>
      mset (renderTasks s) = mset (filter (\<lambda>t. \<not> completed t) (tasks s)))
   \<and> (currentFilter s \<noteq> ''completed'' \<and> currentFilter s \<noteq> ''pending'' \<longrightarrow>
      mset (renderTasks s) = mset (tasks s))
   \<and> sorted_wrt (\<lambda>a b. createdAt b \<le> createdAt a) (renderTasks s)
   \<and> (\<forall>k. filter (\<lambda>t. createdAt t = k) (renderTasks s) =
            filter (\<lambda>t. createdAt t = k)
              (filter (\<lambda>t. (currentFilter s = ''completed'' \<longrightarrow> completed t)
                          \<and> (currentFilter s = ''pending'' \<longrightarrow> \<not> completed t)) (tasks s)))"
proof -
  have shown: "mset (renderTasks s) =
      mset (if currentFilter s = ''completed'' then filter (\<lambda>t. completed t) (tasks s)
            else if currentFilter s = ''pending'' then filter (\<lambda>t. \<not> completed t) (tasks s)
            else tasks s)"
    unfolding renderTasks_def Let_def by (rule mset_sort_by)
  have ordered: "sorted_wrt (\<lambda>a b. createdAt b \<le> createdAt a) (renderTasks s)"
    unfolding renderTasks_def Let_def by (rule sorted_sort_by)
  have stable: "filter (\<lambda>t. createdAt t = k) (renderTasks s) =
      filter (\<lambda>t. createdAt t = k)
        (filter (\<lambda>t. (currentFilter s = ''completed'' \<longrightarrow> completed t)
                    \<and> (currentFilter s = ''pending'' \<longrightarrow> \<not> completed t)) (tasks s))" for k
    unfolding renderTasks_def Let_def stable_sort_by by simp
  from shown ordered stable show ?thesis
    by simp
qed

theorem renderTasks_visible_witness:
  "currentFilter (filterTasks ''pending'' session_store) = ''pending''
   \<and> mset (renderTasks (filterTasks ''pending'' session_store)) = {#dog#}
   \<and> currentFilter session_store \<noteq> ''completed'' \<and> currentFilter session_store \<noteq> ''pending''
   \<and> mset (renderTasks session_store) = {#milk, dog#}
   \<and> sorted_wrt (\<lambda>a b. createdAt b \<le> createdAt a) (renderTasks session_store)"
  using renderTasks_visible [of "filterTasks ''pending'' session_store"]
    renderTasks_visible [of session_store]
  by (simp add: filterTasks_def session_store_def milk_def dog_def)

text \<open>The newest task is shown first.\<close>

lemma renderTasks_session_store: "renderTasks session_store = [dog, milk]"
  by (simp add: renderTasks_def session_store_def sort_by_def milk_def dog_def)

subsection \<open>The fastest task\<close>

text \<open>
  \<open>reduce\<close> with the callback of \<open>updateFastestTaskInfo\<close> returns an element with the least
  key; the elements before it have a key at least as large and the elements after it a
  larger one, so it is the last of the elements with the least key.
\<close>

lemma reduce_last_minimum:
  fixes key :: "'a \<Rightarrow> int"
  shows "\<exists>before after.
           x # xs = before @ foldl (\<lambda>prev current. if key prev < key current then prev else current) x xs # after
           \<and> (\<forall>u \<in> set before. key (foldl (\<lambda>prev current. if key prev < key current then prev else current) x xs) \<le> key u)
           \<and> (\<forall>u \<in> set after. key (foldl (\<lambda>prev current. if key prev < key current then prev else current) x xs) < key u)"
proof (induction xs rule: rev_induct)
  case Nil
  have "[x] = [] @ x # []"
    by simp
  then show ?case
    by fastforce
next
  case (snoc y ys)
  let ?step = "\<lambda>prev current. if key prev < key current then prev else current"
  let ?r = "foldl ?step x ys"
  from snoc obtain before after where
    split: "x # ys = before @ ?r # after"
    and b: "\<forall>u \<in> set before. key ?r \<le> key u"
    and a: "\<forall>u \<in> set after. key ?r < key u"
    by blast
  show ?case
  proof (cases "key ?r < key y")
    case True
    then have r: "foldl ?step x (ys @ [y]) = ?r"
      by simp
    have "x # ys @ [y] = before @ ?r # (after @ [y])"
      using split by simp
    moreover have "\<forall>u \<in> set (after @ [y]). key ?r < key u"
      using a True by simp
    ultimately show ?thesis
      unfolding r using b by blast
  next
    case False
    then have r: "foldl ?step x (ys @ [y]) = y"
      by simp
    have "x # ys @ [y] = (x # ys) @ y # []"
      by simp
    moreover have "\<forall>u \<in> set (x # ys). key y \<le> key u"
    proof
      fix u
      assume "u \<in> set (x # ys)"
      then have "u \<in> set (before @ ?r # after)"
        by (simp only: split)
      then have "u \<in> set before \<or> u = ?r \<or> u \<in> set after"
        by auto
      then have "key ?r \<le> key u"
        using a b by fastforce
      then show "key y \<le> key u"
        using False by simp
    qed
    ultimately show ?thesis
      unfolding r by (metis empty_iff list.set(1))
  qed
qed

lemma completedTasks_defined:
  "completedTasks ts = filter (\<lambda>t. getCompletionTime t \<noteq> None) ts"
  unfolding completedTasks_def getCompletionTime_def
  by (rule filter_cong) auto

lemma less_number_Some:
  "getCompletionTime a \<noteq> None \<Longrightarrow> getCompletionTime b \<noteq> None \<Longrightarrow>
   less_number (getCompletionTime a) (getCompletionTime b)
     = (the (getCompletionTime a) < the (getCompletionTime b))"
  by (auto simp: less_number_def)

lemma foldl_cong_invariant:
  "(\<And>a y. P a \<Longrightarrow> y \<in> set xs \<Longrightarrow> f a y = g a y \<and> P (f a y)) \<Longrightarrow> P x \<Longrightarrow>
   foldl f x xs = foldl g x xs"
proof (induction xs arbitrary: x)
  case Nil
  show ?case
    by simp
next
  case (Cons y ys)
  have both: "f x y = g x y \<and> P (f x y)"
    by (rule Cons.prems(1)) (simp_all add: Cons.prems(2))
  then have head: "f x y = g x y" ..
  have kept: "P (g x y)"
    using both by metis
  have "foldl f (g x y) ys = foldl g (g x y) ys"
  proof (rule Cons.IH)
    show "P (g x y)"
      by (rule kept)
  next
    fix a z
    assume "P a" and "z \<in> set ys"
    then show "f a z = g a z \<and> P (f a z)"
      by (intro Cons.prems(1)) simp_all
  qed
  then show ?case
    by (simp add: head)
qed

lemma fastestTask_completedTasks:
  "(completedTasks ts = [] \<longrightarrow> fastestTask ts = None)
   \<and> (completedTasks ts \<noteq> [] \<longrightarrow>
        (\<exists>t before after.
           fastestTask ts = Some t
           \<and> completedTasks ts = before @ t # after
           \<and> (\<forall>u \<in> set before. the (getCompletionTime t) \<le> the (getCompletionTime u))
           \<and> (\<forall>u \<in> set after. the (getCompletionTime t) < the (getCompletionTime u))))"
proof (cases "completedTasks ts")
  case Nil
  then show ?thesis
    by (simp add: fastestTask_def)
next
  case (Cons x xs)
  let ?key = "\<lambda>t. the (getCompletionTime t)"
  let ?step = "\<lambda>prev current.
                 if less_number (getCompletionTime prev) (getCompletionTime current)
                 then prev else current"
  let ?step' = "\<lambda>prev current. if ?key prev < ?key current then prev else current"
  have "set (x # xs) = set (filter (\<lambda>t. getCompletionTime t \<noteq> None) ts)"
    by (simp only: Cons [symmetric] completedTasks_defined)
  then have defined: "\<forall>t \<in> set (x # xs). getCompletionTime t \<noteq> None"
    by (simp only: set_filter) blast
  have "foldl ?step x xs = foldl ?step' x xs"
    by (rule foldl_cong_invariant [where P = "\<lambda>t. getCompletionTime t \<noteq> None"])
       (use defined in \<open>auto simp: less_number_Some\<close>)
  then have result: "fastestTask ts = Some (foldl ?step' x xs)"
    by (simp add: fastestTask_def Cons)
  from reduce_last_minimum [of x xs ?key] result Cons show ?thesis
    by auto
qed

text \<open>
  Claim C4, amended. If no task has a defined completion time, there is no fastest task.
  Otherwise the fastest task has a completion time that is minimal among the tasks with a
  defined completion time, and of the tasks that have this minimal time it is the last in
  the order of the collection: every such task before it takes at least as long, every
  such task after it takes longer.
\<close>

theorem fastestTask_last_minimum:
  "(filter (\<lambda>t. getCompletionTime t \<noteq> None) ts = [] \<longrightarrow> fastestTask ts = None)
   \<and> (filter (\<lambda>t. getCompletionTime t \<noteq> None) ts \<noteq> [] \<longrightarrow>
        (\<exists>t before after.
           fastestTask ts = Some t
           \<and> filter (\<lambda>t. getCompletionTime t \<noteq> None) ts = before @ t # after
           \<and> (\<forall>u \<in> set before. the (getCompletionTime t) \<le> the (getCompletionTime u))
           \<and> (\<forall>u \<in> set after. the (getCompletionTime t) < the (getCompletionTime u))))"
  using fastestTask_completedTasks [of ts] unfolding completedTasks_defined .

theorem fastestTask_last_minimum_witness:
  "filter (\<lambda>t. getCompletionTime t \<noteq> None) [timed ''a'' 10, timed ''b'' 5, timed ''c'' 20] \<noteq> []
   \<and> (\<exists>t before after.
         fastestTask [timed ''a'' 10, timed ''b'' 5, timed ''c'' 20] = Some t
         \<and> filter (\<lambda>t. getCompletionTime t \<noteq> None) [timed ''a'' 10, timed ''b'' 5, timed ''c'' 20]
             = before @ t # after
         \<and> (\<forall>u \<in> set before. the (getCompletionTime t) \<le> the (getCompletionTime u))
         \<and> (\<forall>u \<in> set after. the (getCompletionTime t) < the (getCompletionTime u)))
   \<and> filter (\<lambda>t. getCompletionTime t \<noteq> None) [dog] = []
   \<and> fastestTask [dog] = None"
proof -
  have some: "filter (\<lambda>t. getCompletionTime t \<noteq> None) [timed ''a'' 10, timed ''b'' 5, timed ''c'' 20] \<noteq> []"
    by (simp add: getCompletionTime_def timed_def)
  have none: "filter (\<lambda>t. getCompletionTime t \<noteq> None) [dog] = []"
    by (simp add: getCompletionTime_def dog_def)
  from some none
    fastestTask_last_minimum [of "[timed ''a'' 10, timed ''b'' 5, timed ''c'' 20]"]
    fastestTask_last_minimum [of "[dog]"]
  show ?thesis
    by blast
qed

text \<open>Over completion times of ten, five and twenty seconds the fastest task is the second.\<close>

lemma fastestTask_example:
  "fastestTask [timed ''a'' 10, timed ''b'' 5, timed ''c'' 20] = Some (timed ''b'' 5)"
  by (simp add: fastestTask_def completedTasks_def getCompletionTime_def less_number_def timed_def)

lemma updateFastestTaskInfo_example:
  "updateFastestTaskInfo [timed ''a'' 10, timed ''b'' 5, timed ''c'' 20] =
     ''Tarea m'' @ [CHR 0xE1] @ ''s r'' @ [CHR 0xE1] @ ''pida completada: '' @ [CHR 0x22]
       @ ''b'' @ [CHR 0x22] @ '' en 5s''"
  by (simp add: updateFastestTaskInfo_def fastestTask_example)
     (simp add: getCompletionTime_def timed_def formatDuration_def js_rem_def toString_def
        digits.simps digit_def)

text \<open>
  Claim C4 as stated fails where two tasks tie: both tasks below took five seconds, and
  the fastest task is the second of them, not the first.
\<close>

theorem fastestTask_tie_counterexample:
  "getCompletionTime (timed ''first'' 5) = Some 5000
   \<and> getCompletionTime (timed ''second'' 5) = Some 5000
   \<and> fastestTask [timed ''first'' 5, timed ''second'' 5] = Some (timed ''second'' 5)
   \<and> timed ''second'' 5 \<noteq> timed ''first'' 5"
  by (simp add: fastestTask_def completedTasks_def getCompletionTime_def less_number_def timed_def)

subsection \<open>Saving and loading\<close>

lemma revive_ids:
  "revive draw i es = Inr ts \<Longrightarrow>
   map task_id ts = map (\<lambda>j. toString 36 (fst (draw j)) @ drop 2 (snd (draw j))) [i..<i + length es]"
proof (induction es arbitrary: i ts)
  case Nil
  then show ?case
    by simp
next
  case (Cons e es)
  show ?case
  proof (cases e)
    case NullEntry
    with Cons.prems show ?thesis
      by simp
  next
    case (Entry r)
    with Cons.prems obtain ts' where
      rest: "revive draw (Suc i) es = Inr ts'"
      and ts: "ts = Task (saved_text r) (saved_completed r) (saved_createdAt r)
                      (case saved_completedAt r of None \<Rightarrow> None | Some c \<Rightarrow> Some c)
                      (fst (draw i)) (snd (draw i)) # ts'"
      by (auto simp: Let_def split: sum.splits)
    have "i < i + length (e # es)"
      by simp
    then have "[i..<i + length (e # es)] = i # [Suc i..<i + length (e # es)]"
      by (rule upt_conv_Cons)
    moreover have "i + length (e # es) = Suc i + length es"
      by simp
    ultimately have "[i..<i + length (e # es)] = i # [Suc i..<Suc i + length es]"
      by (simp only:)
    with Cons.IH [OF rest] show ?thesis
      by (simp add: ts Task_def)
  qed
qed

lemma revive_toJSON:
  "revive draw i (toJSON t # es) =
     (case revive draw (Suc i) es of
        Inl err \<Rightarrow> Inl err
      | Inr ts \<Rightarrow>
          Inr (t\<lparr>task_id := toString 36 (fst (draw i)) @ drop 2 (snd (draw i))\<rparr> # ts))"
  by (cases t) (simp add: toJSON_def Task_def split: option.split sum.split)

lemma revive_saved:
  "\<exists>ts'. revive draw i (map toJSON ts) = Inr ts'
         \<and> map task_text ts' = map task_text ts
         \<and> map completed ts' = map completed ts
         \<and> map createdAt ts' = map createdAt ts
         \<and> map completedAt ts' = map completedAt ts"
proof (induction ts arbitrary: i)
  case Nil
  show ?case
    by simp
next
  case (Cons t ts)
  from Cons.IH [of "Suc i"] obtain ts' where
    "revive draw (Suc i) (map toJSON ts) = Inr ts'"
    "map task_text ts' = map task_text ts"
    "map completed ts' = map completed ts"
    "map createdAt ts' = map createdAt ts"
    "map completedAt ts' = map completedAt ts"
    by blast
  then show ?case
    by (simp add: revive_toJSON)
qed

text \<open>
  Claim C1, amended. Saving and then loading gives a collection of as many tasks, in the
  same order, each with the text, the completion flag, the creation date and the
  completion date it had; an empty collection comes back empty. The ids are not the saved
  ones: each loaded task has the id that the constructor makes from the clock and the
  random number at the time of loading.
\<close>

theorem save_load_regenerates_ids:
  "\<exists>s'. loadTasks draw (saveTasks s) = Inr s'
        \<and> length (tasks s') = length (tasks s)
        \<and> map task_text (tasks s') = map task_text (tasks s)
        \<and> map completed (tasks s') = map completed (tasks s)
        \<and> map createdAt (tasks s') = map createdAt (tasks s)
        \<and> map completedAt (tasks s') = map completedAt (tasks s)
        \<and> map task_id (tasks s') =
            map (\<lambda>j. toString 36 (fst (draw j)) @ drop 2 (snd (draw j))) [0..<length (tasks s)]
        \<and> currentFilter s' = currentFilter s
        \<and> localStorage s' = Snapshot (map toJSON (tasks s))"
proof -
  from revive_saved [of draw 0 "tasks s"] obtain ts' where
    ts': "revive draw 0 (map toJSON (tasks s)) = Inr ts'"
    and fields: "map task_text ts' = map task_text (tasks s)"
      "map completed ts' = map completed (tasks s)"
      "map createdAt ts' = map createdAt (tasks s)"
      "map completedAt ts' = map completedAt (tasks s)"
    by blast
  from revive_ids [OF ts'] have
    "map task_id ts' = map (\<lambda>j. toString 36 (fst (draw j)) @ drop 2 (snd (draw j))) [0..<length (tasks s)]"
    by simp
  moreover from fields(1) have "length ts' = length (tasks s)"
    by (rule map_eq_imp_length_eq)
  ultimately show ?thesis
    using ts' fields by (simp add: loadTasks_def saveTasks_def)
qed

text \<open>
  Claim C1 as stated fails on the ids: the two tasks of the example session come back
  from storage with other ids than they were saved with.
\<close>

theorem save_load_id_counterexample:
  "map task_id (tasks session_store) = [''loyw3v284fzyo82mvyr'', ''loyw55cwi'']
   \<and> (case loadTasks later_draw (saveTasks session_store) of
         Inl err \<Rightarrow> False
       | Inr s' \<Rightarrow> map task_id (tasks s') = [''loyw6080i'', ''loyw6081i''])"
  by (simp add: loadTasks_def saveTasks_def session_store_def milk_def dog_def toJSON_def
        Task_def later_draw_def toString_def digits.simps digit_def)

lemma revive_null: "revive draw i (es @ NullEntry # es') = Inl TypeError"
proof (induction es arbitrary: i)
  case Nil
  show ?case
    by simp
next
  case (Cons e es)
  then show ?case
    by (cases e) (simp_all add: Let_def)
qed

text \<open>
  Claim C2, amended. When there is no snapshot, \<open>loadTasks\<close> changes nothing and throws
  nothing: the collection stays as it is, which is empty when the constructor calls it.
  When the snapshot is malformed, nothing is recovered: on a text that is not JSON a
  SyntaxError, and on a JSON value that is not an array or on an array with a \<open>null\<close>
  element a TypeError, leaves \<open>loadTasks\<close> and the constructor uncaught.
\<close>

theorem loadTasks_absent_or_malformed:
  "loadTasks draw (s\<lparr>localStorage := Missing\<rparr>) = Inr (s\<lparr>localStorage := Missing\<rparr>)
   \<and> loadTasks draw (s\<lparr>localStorage := Garbled\<rparr>) = Inl SyntaxError
   \<and> loadTasks draw (s\<lparr>localStorage := NonArray\<rparr>) = Inl TypeError
   \<and> loadTasks draw (s\<lparr>localStorage := Snapshot (es @ NullEntry # es')\<rparr>) = Inl TypeError
   \<and> TaskManager Missing draw = Inr empty_store
   \<and> TaskManager Garbled draw = Inl SyntaxError
   \<and> TaskManager NonArray draw = Inl TypeError
   \<and> TaskManager (Snapshot (es @ NullEntry # es')) draw = Inl TypeError"
  by (simp add: loadTasks_def TaskManager_def empty_store_def revive_null)

text \<open>
  Claim C2 as stated fails on a snapshot that is not JSON: the error reaches the caller
  of \<open>loadTasks\<close>, and the constructor does not return a task manager.
\<close>

theorem loadTasks_malformed_counterexample:
  "loadTasks later_draw (empty_store\<lparr>localStorage := Garbled\<rparr>) = Inl SyntaxError
   \<and> TaskManager Garbled later_draw = Inl SyntaxError"
  by (simp add: loadTasks_def TaskManager_def empty_store_def)

subsection \<open>Operations that are refused\<close>

text \<open>
  Claim C7. \<open>addTask\<close> on a text that is empty after trimming, and
  \<open>toggleTaskCompletion\<close> on an id that no task has, return the state they were given:
  the collection and the stored snapshot are unchanged, and no error is possible, the
  result being a state.
\<close>

theorem rejected_input_changes_nothing:
  "(trim input_value = [] \<longrightarrow> addTask input_value clock now random36 s = s)
   \<and> (taskId \<notin> set (map task_id (tasks s)) \<longrightarrow> toggleTaskCompletion taskId clock s = s)"
proof -
  have "find (\<lambda>t. task_id t = taskId) (tasks s) = None"
    if "taskId \<notin> set (map task_id (tasks s))"
    using that by (auto simp: find_None_iff)
  then show ?thesis
    by (simp add: addTask_def toggleTaskCompletion_def)
qed

theorem rejected_input_changes_nothing_witness:
  "trim [CHR 0x20, CHR 0x09, CHR 0x20] = []
   \<and> addTask [CHR 0x20, CHR 0x09, CHR 0x20] 1700000070000 1700000070000 ''0.k'' session_store
       = session_store
   \<and> ''loyw3v28zz'' \<notin> set (map task_id (tasks session_store))
   \<and> toggleTaskCompletion ''loyw3v28zz'' 1700000070000 session_store = session_store"
proof -
  have blank: "trim [CHR 0x20, CHR 0x09, CHR 0x20] = []"
    by (simp add: trim_def is_space_def)
  have unknown: "''loyw3v28zz'' \<notin> set (map task_id (tasks session_store))"
    by (simp add: session_store_def milk_def dog_def)
  from blank unknown
    rejected_input_changes_nothing
      [of "[CHR 0x20, CHR 0x09, CHR 0x20]" 1700000070000 1700000070000 "''0.k''" session_store
          "''loyw3v28zz''"]
  show ?thesis
    by blast
qed

subsection \<open>Completion dates in the states of a run\<close>

text \<open>
  Every operation keeps the invariant: the tasks of the collection and the objects of the
  stored snapshot are consistent. On such a state \<open>loadTasks\<close> does not throw, so a run
  from the empty store never ends in an error.
\<close>

lemma invariant_empty_store: "invariant empty_store"
  by (simp add: invariant_def empty_store_def stored_consistent_def)

lemma stored_consistent_toJSON:
  "list_all consistent ts \<Longrightarrow> stored_consistent (Snapshot (map toJSON ts))"
  by (induction ts) (simp_all add: stored_consistent_def toJSON_def consistent_def)

lemma invariant_saveTasks:
  "list_all consistent (tasks s) \<Longrightarrow> invariant (saveTasks s)"
  by (simp add: invariant_def saveTasks_def stored_consistent_toJSON)

lemma invariant_saved_update:
  "list_all consistent ts \<Longrightarrow> invariant (saveTasks (s\<lparr>tasks := ts\<rparr>))"
  by (rule invariant_saveTasks) simp

lemma invariant_addTask:
  assumes "invariant s"
  shows "invariant (addTask input_value clock now random36 s)"
proof (cases "trim input_value = []")
  case True
  with assms show ?thesis by (simp add: addTask_def)
next
  case False
  have "list_all consistent (tasks s @ [Task (trim input_value) False clock None now random36])"
    using assms by (simp add: invariant_def Task_def consistent_def)
  then show ?thesis
    using False by (simp add: addTask_def Let_def invariant_saved_update)
qed

lemma consistent_toggle: "consistent (toggle clock t)"
  by (simp add: consistent_def toggle_def Let_def)

lemma consistent_update_first:
  "list_all consistent ts \<Longrightarrow> list_all consistent (update_first P (toggle clock) ts)"
  by (induction ts) (simp_all add: consistent_toggle)

lemma invariant_toggleTaskCompletion:
  assumes "invariant s"
  shows "invariant (toggleTaskCompletion taskId clock s)"
proof (cases "find (\<lambda>t. task_id t = taskId) (tasks s)")
  case None
  with assms show ?thesis by (simp add: toggleTaskCompletion_def)
next
  case (Some found)
  have "list_all consistent (update_first (\<lambda>t. task_id t = taskId) (toggle clock) (tasks s))"
    using assms by (simp add: invariant_def consistent_update_first)
  then show ?thesis
    using Some by (simp add: toggleTaskCompletion_def invariant_saved_update)
qed

lemma list_all_filter: "list_all P xs \<Longrightarrow> list_all P (filter Q xs)"
  by (induction xs) simp_all

lemma invariant_deleteTask: "invariant s \<Longrightarrow> invariant (deleteTask taskId s)"
  unfolding deleteTask_def
  by (rule invariant_saved_update) (simp add: invariant_def list_all_filter)

lemma invariant_clearCompletedTasks: "invariant s \<Longrightarrow> invariant (clearCompletedTasks s)"
  unfolding clearCompletedTasks_def
  by (rule invariant_saved_update) (simp add: invariant_def list_all_filter)

lemma invariant_filterTasks: "invariant s \<Longrightarrow> invariant (filterTasks f s)"
  by (simp add: invariant_def filterTasks_def)

lemma revive_consistent:
  "stored_consistent (Snapshot es) \<Longrightarrow> \<exists>ts. revive draw i es = Inr ts \<and> list_all consistent ts"
proof (induction es arbitrary: i)
  case Nil
  show ?case by simp
next
  case (Cons e es)
  from Cons.prems obtain r where e: "e = Entry r"
    and r: "(saved_completedAt r \<noteq> None) = saved_completed r"
    and rest: "stored_consistent (Snapshot es)"
    by (cases e) (simp_all add: stored_consistent_def)
  from Cons.IH [OF rest, of "Suc i"] obtain ts where
    ts: "revive draw (Suc i) es = Inr ts" "list_all consistent ts"
    by blast
  have "consistent (Task (saved_text r) (saved_completed r) (saved_createdAt r)
                         (case saved_completedAt r of None \<Rightarrow> None | Some c \<Rightarrow> Some c)
                         (fst (draw i)) (snd (draw i)))"
    using r by (cases "saved_completedAt r") (simp_all add: Task_def consistent_def)
  then show ?case
    using ts by (simp add: e Let_def)
qed

lemma invariant_loadTasks:
  assumes "invariant s"
  shows "\<exists>s'. loadTasks draw s = Inr s' \<and> invariant s'"
proof (cases "localStorage s")
  case Missing
  with assms show ?thesis by (simp add: loadTasks_def)
next
  case Garbled
  with assms show ?thesis by (simp add: invariant_def stored_consistent_def)
next
  case NonArray
  with assms show ?thesis by (simp add: invariant_def stored_consistent_def)
next
  case (Snapshot es)
  with assms have "stored_consistent (Snapshot es)" by (simp add: invariant_def)
  from revive_consistent [OF this, of draw 0] obtain ts where
    "revive draw 0 es = Inr ts" "list_all consistent ts" by blast
  with assms Snapshot show ?thesis
    by (simp add: loadTasks_def invariant_def)
qed

lemma invariant_TaskManager:
  assumes "invariant s"
  shows "\<exists>s'. TaskManager (localStorage s) draw = Inr s' \<and> invariant s'"
proof -
  have "invariant \<lparr>tasks = [], currentFilter = ''all'', localStorage = localStorage s\<rparr>"
    using assms by (simp add: invariant_def)
  from invariant_loadTasks [OF this] show ?thesis
    by (simp add: TaskManager_def)
qed

lemma invariant_perform:
  "invariant s \<Longrightarrow> \<exists>s'. perform a s = Inr s' \<and> invariant s'"
  by (cases a)
     (simp_all add: invariant_addTask invariant_toggleTaskCompletion invariant_deleteTask
        invariant_clearCompletedTasks invariant_filterTasks invariant_saveTasks
        invariant_loadTasks invariant_TaskManager invariant_def [of s])

lemma invariant_run:
  "invariant s \<Longrightarrow> \<exists>s'. run acts s = Inr s' \<and> invariant s'"
proof (induction acts arbitrary: s)
  case Nil
  then show ?case by simp
next
  case (Cons a acts)
  from invariant_perform [OF Cons.prems, of a] obtain s1 where
    "perform a s = Inr s1" "invariant s1" by blast
  with Cons.IH [of s1] show ?case by simp
qed

lemma reachable_invariant:
  "\<exists>s. run acts empty_store = Inr s \<and> invariant s"
  by (rule invariant_run [OF invariant_empty_store])

lemma reachable_consistent:
  "run acts empty_store = Inr s \<Longrightarrow> t \<in> set (tasks s) \<Longrightarrow> consistent t"
  using reachable_invariant [of acts] by (auto simp: invariant_def list_all_iff)

lemma run_session: "run session empty_store = Inr session_store"
  by (simp add: session_def empty_store_def session_store_def milk_def dog_def
        addTask_def toggleTaskCompletion_def saveTasks_def toJSON_def Task_def toggle_def
        trim_def is_space_def toString_def digits.simps digit_def Let_def)

text \<open>
  Claim C8. In every state that a run of the operations reaches from the empty store,
  each task has a defined completion time exactly when it is completed, and a completion
  date exactly when it is completed. Toggling a completed task clears its completion
  date.
\<close>

theorem completion_time_defined_iff_completed:
  "(run acts empty_store = Inr s \<longrightarrow>
      (\<forall>t \<in> set (tasks s).
         ((getCompletionTime t \<noteq> None) = completed t)
         \<and> ((completedAt t \<noteq> None) = completed t)))
   \<and> (completed u \<longrightarrow>
        \<not> completed (toggle clock u) \<and> completedAt (toggle clock u) = None
        \<and> getCompletionTime (toggle clock u) = None)"
proof -
  have "((getCompletionTime t \<noteq> None) = completed t) \<and> ((completedAt t \<noteq> None) = completed t)"
    if "run acts empty_store = Inr s" and "t \<in> set (tasks s)" for t
  proof -
    from that have "consistent t"
      by (rule reachable_consistent)
    then show ?thesis
      by (auto simp: consistent_def getCompletionTime_def)
  qed
  then show ?thesis
    by (simp add: toggle_def Let_def getCompletionTime_def)
qed

theorem completion_time_defined_iff_completed_witness:
  "run session empty_store = Inr session_store
   \<and> tasks session_store = [milk, dog]
   \<and> (getCompletionTime milk \<noteq> None) = completed milk
   \<and> (completedAt milk \<noteq> None) = completed milk
   \<and> (getCompletionTime dog \<noteq> None) = completed dog
   \<and> (completedAt dog \<noteq> None) = completed dog
   \<and> completed milk
   \<and> completedAt (toggle 1700000070000 milk) = None"
proof -
  have listed: "tasks session_store = [milk, dog]"
    by (simp add: session_store_def)
  from completion_time_defined_iff_completed [of session session_store milk 1700000070000]
    run_session listed
  show ?thesis
    by (simp add: milk_def)
qed

subsection \<open>Toggling twice\<close>

lemma update_first_twice:
  "(\<And>x. P x \<Longrightarrow> P (f x)) \<Longrightarrow>
   update_first P g (update_first P f xs) = update_first P (\<lambda>x. g (f x)) xs"
  by (induction xs) simp_all

lemma find_update_first:
  "(\<And>x. P x \<Longrightarrow> P (f x)) \<Longrightarrow> find P (update_first P f xs) = map_option f (find P xs)"
  by (induction xs) simp_all

lemma toggle_toggle:
  "toggle clock2 (toggle clock1 t) = t\<lparr>completedAt := (if completed t then Some clock2 else None)\<rparr>"
  by (simp add: toggle_def Let_def)

lemma task_id_toggle: "task_id (toggle clock t) = task_id t"
  by (simp add: toggle_def Let_def)

lemma update_first_no_match:
  "\<forall>x \<in> set xs. \<not> P x \<Longrightarrow> update_first P f xs = xs"
  by (induction xs) simp_all

lemma tasks_toggleTaskCompletion:
  "tasks (toggleTaskCompletion taskId clock s)
     = update_first (\<lambda>t. task_id t = taskId) (toggle clock) (tasks s)"
proof (cases "find (\<lambda>t. task_id t = taskId) (tasks s)")
  case None
  then have "\<forall>t \<in> set (tasks s). task_id t \<noteq> taskId"
    by (simp add: find_None_iff)
  then have "update_first (\<lambda>t. task_id t = taskId) (toggle clock) (tasks s) = tasks s"
    by (rule update_first_no_match)
  with None show ?thesis by (simp add: toggleTaskCompletion_def)
next
  case (Some found)
  then show ?thesis by (simp add: toggleTaskCompletion_def saveTasks_def)
qed

lemma tasks_toggled_twice:
  "tasks (toggleTaskCompletion taskId clock2 (toggleTaskCompletion taskId clock1 s))
     = update_first (\<lambda>t. task_id t = taskId)
         (\<lambda>t. t\<lparr>completedAt := (if completed t then Some clock2 else None)\<rparr>) (tasks s)"
  by (simp add: tasks_toggleTaskCompletion update_first_twice task_id_toggle toggle_toggle)

lemma list_all2_update_first:
  "(\<And>x. x \<in> set xs \<Longrightarrow> R x x) \<Longrightarrow> (\<And>x. x \<in> set xs \<Longrightarrow> R x (f x)) \<Longrightarrow>
   list_all2 R xs (update_first P f xs)"
  by (induction xs) (simp_all add: list_all2_same)

text \<open>
  Claim C6. In a state whose tasks are consistent, as they are in every state of a run
  from the empty store, toggling an id twice leaves every task with the completion flag it
  had, and every task that had no completion date without one. The completion date of a
  completed task does not come back: after the two toggles the task has the date of the
  second toggle, whatever date it had before.
\<close>

theorem toggle_twice:
  assumes "list_all consistent (tasks s)"
  shows "list_all2 (\<lambda>t t'. completed t' = completed t
                          \<and> (completedAt t = None \<longrightarrow> completedAt t' = None))
           (tasks s)
           (tasks (toggleTaskCompletion taskId clock2 (toggleTaskCompletion taskId clock1 s)))
         \<and> (\<forall>t. find (\<lambda>t. task_id t = taskId) (tasks s) = Some t \<and> completed t \<longrightarrow>
               find (\<lambda>t. task_id t = taskId)
                 (tasks (toggleTaskCompletion taskId clock2 (toggleTaskCompletion taskId clock1 s)))
               = Some (t\<lparr>completedAt := Some clock2\<rparr>))"
proof
  have kept: "completedAt t = None \<longrightarrow> \<not> completed t" if "t \<in> set (tasks s)" for t
    using assms that by (auto simp: consistent_def list_all_iff)
  show "list_all2 (\<lambda>t t'. completed t' = completed t
                          \<and> (completedAt t = None \<longrightarrow> completedAt t' = None))
           (tasks s)
           (tasks (toggleTaskCompletion taskId clock2 (toggleTaskCompletion taskId clock1 s)))"
    unfolding tasks_toggled_twice
    by (rule list_all2_update_first) (use kept in simp_all)
  show "\<forall>t. find (\<lambda>t. task_id t = taskId) (tasks s) = Some t \<and> completed t \<longrightarrow>
               find (\<lambda>t. task_id t = taskId)
                 (tasks (toggleTaskCompletion taskId clock2 (toggleTaskCompletion taskId clock1 s)))
               = Some (t\<lparr>completedAt := Some clock2\<rparr>)"
    unfolding tasks_toggled_twice
    by (simp add: find_update_first)
qed

theorem toggle_twice_witness:
  "list_all consistent (tasks session_store)
   \<and> find (\<lambda>t. task_id t = ''loyw3v284fzyo82mvyr'') (tasks session_store) = Some milk
   \<and> completed milk
   \<and> completedAt milk = Some 1700000005000
   \<and> tasks (toggleTaskCompletion ''loyw3v284fzyo82mvyr'' 1700000090000
              (toggleTaskCompletion ''loyw3v284fzyo82mvyr'' 1700000080000 session_store))
       = [milk\<lparr>completedAt := Some 1700000090000\<rparr>, dog]
   \<and> find (\<lambda>t. task_id t = ''loyw3v284fzyo82mvyr'')
        (tasks (toggleTaskCompletion ''loyw3v284fzyo82mvyr'' 1700000090000
                 (toggleTaskCompletion ''loyw3v284fzyo82mvyr'' 1700000080000 session_store)))
       = Some (milk\<lparr>completedAt := Some 1700000090000\<rparr>)"
proof -
  have found: "find (\<lambda>t. task_id t = ''loyw3v284fzyo82mvyr'') (tasks session_store) = Some milk"
    by (simp add: session_store_def milk_def)
  have flags: "completed milk" "completedAt milk = Some 1700000005000"
    by (simp_all add: milk_def)
  have twice: "tasks (toggleTaskCompletion ''loyw3v284fzyo82mvyr'' 1700000090000
              (toggleTaskCompletion ''loyw3v284fzyo82mvyr'' 1700000080000 session_store))
       = [milk\<lparr>completedAt := Some 1700000090000\<rparr>, dog]"
    by (simp add: tasks_toggled_twice session_store_def milk_def dog_def)
  have sound: "list_all consistent (tasks session_store)"
    by (simp add: session_store_def milk_def dog_def consistent_def)
  from toggle_twice [OF sound, of "''loyw3v284fzyo82mvyr''" 1700000090000 1700000080000]
    found flags twice sound
  show ?thesis
    by simp
qed

subsection \<open>Ids\<close>

lemma map_task_id_update_first:
  "map task_id (update_first P (toggle clock) ts) = map task_id ts"
  by (induction ts) (simp_all add: task_id_toggle)

lemma distinct_loadTasks:
  assumes "distinct (map task_id (tasks s))"
    and "no_collision (Load draw) s"
    and "loadTasks draw s = Inr s'"
  shows "distinct (map task_id (tasks s'))"
proof (cases "localStorage s")
  case (Snapshot es)
  with assms(3) obtain ts where ts: "revive draw 0 es = Inr ts" and s': "s' = s\<lparr>tasks := ts\<rparr>"
    by (auto simp: loadTasks_def split: sum.splits)
  from revive_ids [OF ts] assms(2) Snapshot show ?thesis
    by (simp add: s')
qed (use assms in \<open>auto simp: loadTasks_def\<close>)

lemma distinct_perform:
  assumes "distinct (map task_id (tasks s))"
    and "no_collision a s"
    and "perform a s = Inr s'"
  shows "distinct (map task_id (tasks s'))"
proof (cases a)
  case (AddTask input_value clock now random36)
  with assms show ?thesis
    by (auto simp: addTask_def Let_def saveTasks_def Task_def)
next
  case (ToggleTask taskId clock)
  with assms show ?thesis
    by (auto simp: tasks_toggleTaskCompletion map_task_id_update_first)
next
  case (DeleteTask taskId)
  with assms show ?thesis
    by (auto simp: deleteTask_def saveTasks_def distinct_map_filter)
next
  case ClearCompleted
  with assms show ?thesis
    by (auto simp: clearCompletedTasks_def saveTasks_def distinct_map_filter)
next
  case (SetFilter f)
  with assms show ?thesis by (auto simp: filterTasks_def)
next
  case Save
  with assms show ?thesis by (auto simp: saveTasks_def)
next
  case (Load draw)
  with assms show ?thesis by (auto intro: distinct_loadTasks)
next
  case (Reload draw)
  have "distinct (map task_id (tasks \<lparr>tasks = [], currentFilter = ''all'', localStorage = localStorage s\<rparr>))"
    by simp
  moreover have "no_collision (Load draw) \<lparr>tasks = [], currentFilter = ''all'', localStorage = localStorage s\<rparr>"
    using assms(2) Reload by simp
  moreover have "loadTasks draw \<lparr>tasks = [], currentFilter = ''all'', localStorage = localStorage s\<rparr> = Inr s'"
    using assms(3) Reload by (simp add: TaskManager_def)
  ultimately show ?thesis by (rule distinct_loadTasks)
qed

lemma distinct_run:
  "distinct (map task_id (tasks s)) \<Longrightarrow> collision_free acts s \<Longrightarrow> run acts s = Inr s' \<Longrightarrow>
   distinct (map task_id (tasks s'))"
proof (induction acts arbitrary: s)
  case Nil
  then show ?case by simp
next
  case (Cons a acts)
  from Cons.prems(3) obtain s1 where step: "perform a s = Inr s1" and rest: "run acts s1 = Inr s'"
    by (auto split: sum.splits)
  from Cons.prems(2) step have "no_collision a s" and free: "collision_free acts s1"
    by simp_all
  with Cons.prems(1) step have "distinct (map task_id (tasks s1))"
    by (auto intro: distinct_perform)
  from Cons.IH [OF this free rest] show ?case .
qed

lemma ids_loadTasks:
  assumes "localStorage s = Snapshot es" and "loadTasks draw s = Inr s'"
  shows "map task_id (tasks s') =
           map (\<lambda>j. toString 36 (fst (draw j)) @ drop 2 (snd (draw j))) [0..<length es]"
proof -
  from assms obtain ts where ts: "revive draw 0 es = Inr ts" and s': "s' = s\<lparr>tasks := ts\<rparr>"
    by (auto simp: loadTasks_def split: sum.splits)
  from revive_ids [OF ts] show ?thesis
    by (simp add: s')
qed

lemma tasks_addTask:
  "take (length (tasks s)) (tasks (addTask input_value clock now random36 s)) = tasks s"
  by (simp add: addTask_def Let_def saveTasks_def)

text \<open>
  Claim C9, amended. In every state that a run without collision reaches from the empty
  store, no two tasks have the same id. The id of a task is made by the constructor from
  \<open>Date.now()\<close> and \<open>Math.random()\<close>, and the operations on the collection leave the ids
  they find as they are: \<open>toggleTaskCompletion\<close> keeps the list of ids, \<open>deleteTask\<close> and
  \<open>clearCompletedTasks\<close> keep the tasks they do not remove, \<open>saveTasks\<close> and \<open>filterTasks\<close>
  keep the collection, and \<open>addTask\<close> keeps the tasks before the new one. A load gives the
  tasks the ids that the constructor makes at that time, whatever ids were saved.
  Nothing in the program compares a new id with the ids in use: whether ids repeat is
  left to the clock and to \<open>Math.random\<close>.
\<close>

theorem ids_distinct_without_collision:
  "(collision_free acts empty_store \<and> run acts empty_store = Inr s \<longrightarrow>
      distinct (map task_id (tasks s)))
   \<and> task_id (Task text completed_arg createdAt_arg completedAt_arg now random36)
       = toString 36 now @ drop 2 random36
   \<and> map task_id (tasks (toggleTaskCompletion taskId clock s')) = map task_id (tasks s')
   \<and> tasks (deleteTask taskId s') = filter (\<lambda>t. task_id t \<noteq> taskId) (tasks s')
   \<and> tasks (clearCompletedTasks s') = filter (\<lambda>t. \<not> completed t) (tasks s')
   \<and> tasks (saveTasks s') = tasks s'
   \<and> tasks (filterTasks f s') = tasks s'
   \<and> take (length (tasks s')) (tasks (addTask input_value clock now random36 s')) = tasks s'
   \<and> (localStorage s' = Snapshot es \<and> loadTasks draw s' = Inr s'' \<longrightarrow>
        map task_id (tasks s'') =
          map (\<lambda>j. toString 36 (fst (draw j)) @ drop 2 (snd (draw j))) [0..<length es])"
proof -
  have "distinct (map task_id (tasks empty_store))"
    by (simp add: empty_store_def)
  then have unique: "collision_free acts empty_store \<and> run acts empty_store = Inr s \<longrightarrow>
      distinct (map task_id (tasks s))"
    by (auto intro: distinct_run)
  have made: "task_id (Task text completed_arg createdAt_arg completedAt_arg now random36)
       = toString 36 now @ drop 2 random36"
    by (simp add: Task_def)
  have toggled: "map task_id (tasks (toggleTaskCompletion taskId clock s')) = map task_id (tasks s')"
    by (simp add: tasks_toggleTaskCompletion map_task_id_update_first)
  have removed: "tasks (deleteTask taskId s') = filter (\<lambda>t. task_id t \<noteq> taskId) (tasks s')"
    "tasks (clearCompletedTasks s') = filter (\<lambda>t. \<not> completed t) (tasks s')"
    by (simp_all add: deleteTask_def clearCompletedTasks_def saveTasks_def)
  have same: "tasks (saveTasks s') = tasks s'" "tasks (filterTasks f s') = tasks s'"
    by (simp_all add: saveTasks_def filterTasks_def)
  have added: "take (length (tasks s')) (tasks (addTask input_value clock now random36 s')) = tasks s'"
    by (rule tasks_addTask)
  have loaded: "localStorage s' = Snapshot es \<and> loadTasks draw s' = Inr s'' \<longrightarrow>
        map task_id (tasks s'') =
          map (\<lambda>j. toString 36 (fst (draw j)) @ drop 2 (snd (draw j))) [0..<length es]"
    by (auto intro: ids_loadTasks)
  from unique made toggled removed same added loaded show ?thesis
    by (intro conjI)
qed

theorem ids_distinct_without_collision_witness:
  "collision_free session empty_store
   \<and> run session empty_store = Inr session_store
   \<and> distinct (map task_id (tasks session_store))
   \<and> map task_id (tasks session_store) = [''loyw3v284fzyo82mvyr'', ''loyw55cwi'']
   \<and> tasks (deleteTask ''loyw3v284fzyo82mvyr'' session_store) = [dog]
   \<and> tasks (clearCompletedTasks session_store) = [dog]
   \<and> localStorage session_store = Snapshot [toJSON milk, toJSON dog]
   \<and> loadTasks later_draw session_store
       = Inr (session_store\<lparr>tasks := [milk\<lparr>task_id := ''loyw6080i''\<rparr>,
                                       dog\<lparr>task_id := ''loyw6081i''\<rparr>]\<rparr>)
   \<and> map task_id (tasks (session_store\<lparr>tasks := [milk\<lparr>task_id := ''loyw6080i''\<rparr>,
                                                   dog\<lparr>task_id := ''loyw6081i''\<rparr>]\<rparr>))
       = map (\<lambda>j. toString 36 (fst (later_draw j)) @ drop 2 (snd (later_draw j)))
           [0..<length [toJSON milk, toJSON dog]]"
proof -
  have free: "collision_free session empty_store"
    by (simp add: session_def empty_store_def
          addTask_def toggleTaskCompletion_def saveTasks_def toJSON_def Task_def toggle_def
          trim_def is_space_def toString_def digits.simps digit_def Let_def)
  have ids: "map task_id (tasks session_store) = [''loyw3v284fzyo82mvyr'', ''loyw55cwi'']"
    by (simp add: session_store_def milk_def dog_def)
  have kept: "filter (\<lambda>t. task_id t \<noteq> ''loyw3v284fzyo82mvyr'') (tasks session_store) = [dog]"
    "filter (\<lambda>t. \<not> completed t) (tasks session_store) = [dog]"
    by (simp_all add: session_store_def milk_def dog_def)
  have stored: "localStorage session_store = Snapshot [toJSON milk, toJSON dog]"
    by (simp add: session_store_def)
  have loaded: "loadTasks later_draw session_store
       = Inr (session_store\<lparr>tasks := [milk\<lparr>task_id := ''loyw6080i''\<rparr>,
                                       dog\<lparr>task_id := ''loyw6081i''\<rparr>]\<rparr>)"
    by (simp add: loadTasks_def session_store_def milk_def dog_def toJSON_def
          Task_def later_draw_def toString_def digits.simps digit_def)
  from ids_distinct_without_collision
         [where acts = session and s = session_store and s' = session_store
            and taskId = "''loyw3v284fzyo82mvyr''" and draw = later_draw
            and es = "[toJSON milk, toJSON dog]"
            and s'' = "session_store\<lparr>tasks := [milk\<lparr>task_id := ''loyw6080i''\<rparr>,
                                                dog\<lparr>task_id := ''loyw6081i''\<rparr>]\<rparr>"]
    free run_session ids kept stored loaded
  show ?thesis
    by simp
qed

text \<open>
  Claim C9 as stated fails when the clock and \<open>Math.random\<close> give the same readings to two
  constructor calls: the two tasks added below have the same id.
\<close>

theorem id_collision_counterexample:
  "(case run [AddTask ''buy milk'' 1700000000000 1700000000000 ''0.i'',
              AddTask ''walk dog'' 1700000000000 1700000000000 ''0.i''] empty_store of
      Inl err \<Rightarrow> False
    | Inr s \<Rightarrow> map task_id (tasks s) = [''loyw3v28i'', ''loyw3v28i''])"
  by (simp add: empty_store_def addTask_def saveTasks_def Task_def
        trim_def is_space_def toString_def digits.simps digit_def Let_def)

end
